theory Spec2Isabelle
  imports Main "HOL-Library.List_Lexorder" "HOL-Library.Sublist" "HOL-Library.Multiset"
begin

section \<open>Text: Python strings as lists of code points\<close>

text \<open>
  A Python \<open>str\<close> is a sequence of Unicode code points; \<open>len\<close> counts code points and
  comparison is lexicographic on them. A text is therefore a list of naturals, ordered by
  the lexicographic order of \<open>HOL-Library.List_Lexorder\<close>.
\<close>

type_synonym pystr = "nat list"

definition NL :: nat where
  "NL = 10"

definition is_nl :: "nat \<Rightarrow> bool" where
  "is_nl c \<longleftrightarrow> c = NL"

text \<open>
  \<open>str.isspace\<close> on one code point: the characters that \<open>str.strip()\<close> without
  arguments removes (tab to carriage return, the four information separators, space,
  NEL, no-break space, and the Unicode space separators).
\<close>

definition isspace :: "nat \<Rightarrow> bool" where
  "isspace c \<longleftrightarrow>
     (9 \<le> c \<and> c \<le> 13) \<or> (28 \<le> c \<and> c \<le> 32) \<or> c = 133 \<or> c = 160 \<or> c = 5760 \<or>
     (8192 \<le> c \<and> c \<le> 8202) \<or> c = 8232 \<or> c = 8233 \<or> c = 8239 \<or> c = 8287 \<or> c = 12288"

definition lstrip :: "pystr \<Rightarrow> pystr" where
  "lstrip s = dropWhile isspace s"

definition rstrip :: "pystr \<Rightarrow> pystr" where
  "rstrip s = rev (dropWhile isspace (rev s))"

definition strip :: "pystr \<Rightarrow> pystr" where
  "strip s = rstrip (lstrip s)"

subsection \<open>The newline-collapse rule\<close>

text \<open>
  \<open>re.sub(r'\n{3,}', '\n\n', text)\<close>: the scan goes left to right; at each position the
  greedy pattern takes every newline that follows, and matches when there are at least
  three of them. A match is replaced by two newlines and the scan resumes after it;
  where there is no match the character is copied and the scan moves one position on.
\<close>

function re_sub_newlines :: "pystr \<Rightarrow> pystr" where
  "re_sub_newlines [] = []"
| "re_sub_newlines (c # cs) =
     (if 3 \<le> length (takeWhile is_nl (c # cs))
      then [NL, NL] @ re_sub_newlines (dropWhile is_nl (c # cs))
      else c # re_sub_newlines cs)"
  by pat_completeness auto
termination
proof (relation "measure length")
  show "wf (measure length)" by simp
next
  fix c :: nat and cs :: "nat list"
  assume long: "3 \<le> length (takeWhile is_nl (c # cs))"
  have "length (takeWhile is_nl (c # cs)) + length (dropWhile is_nl (c # cs)) = length (c # cs)"
    by (metis length_append takeWhile_dropWhile_id)
  with long show "(dropWhile is_nl (c # cs), c # cs) \<in> measure length"
    by simp
next
  fix c :: nat and cs :: "nat list"
  show "(cs, c # cs) \<in> measure length" by simp
qed

text \<open>
  The rule in the specification's words: cut the text into its maximal blocks of
  newlines and of other characters, and replace every newline block of three or more by
  two newlines.
\<close>

fun segments :: "pystr \<Rightarrow> pystr list" where
  "segments [] = []"
| "segments (c # cs) =
     (case segments cs of
        [] \<Rightarrow> [[c]]
      | g # gs \<Rightarrow> if is_nl c = is_nl (hd g) then (c # g) # gs else [c] # g # gs)"



subsection \<open>Candidate selection\<close>

text \<open>
  \<open>max(xs, key=f)\<close> keeps the first element and replaces it only by a later element
  whose key is strictly greater; on an empty sequence it raises \<open>ValueError\<close>
  (\<open>None\<close> here).
\<close>

fun max_key_from :: "('a \<Rightarrow> nat) \<Rightarrow> 'a \<Rightarrow> 'a list \<Rightarrow> 'a" where
  "max_key_from f best [] = best"
| "max_key_from f best (x # xs) = max_key_from f (if f best < f x then x else best) xs"

definition max_key :: "('a \<Rightarrow> nat) \<Rightarrow> 'a list \<Rightarrow> 'a option" where
  "max_key f xs = (case xs of [] \<Rightarrow> None | x # rest \<Rightarrow> Some (max_key_from f x rest))"

text \<open>\<open>read_book_to_text.py\<close>: \<open>max(results, key=lambda x: len(x.strip()))\<close>.\<close>

definition select_layout :: "pystr list \<Rightarrow> pystr option" where
  "select_layout results = max_key (\<lambda>x. length (strip x)) results"

text \<open>\<open>extract_text_from_images.py\<close>: \<open>max(texts, key=len)\<close>.\<close>

definition select_image :: "pystr list \<Rightarrow> pystr option" where
  "select_image texts = max_key length texts"

subsection \<open>Formatting helpers\<close>

text \<open>\<open>str(n)\<close> for a non-negative integer: its decimal digits.\<close>

function str_nat :: "nat \<Rightarrow> pystr" where
  "str_nat n = (if n < 10 then [48 + n] else str_nat (n div 10) @ [48 + n mod 10])"
  by pat_completeness auto
termination
  by (relation "measure (\<lambda>n. n)") auto

declare str_nat.simps [simp del]

text \<open>\<open>sep.join(xs)\<close>.\<close>

fun join :: "pystr \<Rightarrow> pystr list \<Rightarrow> pystr" where
  "join sep [] = []"
| "join sep [x] = x"
| "join sep (x # y # ys) = x @ sep @ join sep (y # ys)"

text \<open>\<open>s.count('\n')\<close>.\<close>

definition count_newlines :: "pystr \<Rightarrow> nat" where
  "count_newlines s = length (filter is_nl s)"

definition endswith :: "pystr \<Rightarrow> pystr \<Rightarrow> bool" where
  "endswith s ext \<longleftrightarrow> length ext \<le> length s \<and> drop (length s - length ext) s = ext"

definition slash :: nat where
  "slash = 47"

definition dot :: nat where
  "dot = 46"

text \<open>
  \<open>str.lower()\<close>, one code point at a time. Only the code points whose lower case is
  an ASCII letter matter to the comparisons with the ASCII extension lists: the capitals
  A to Z and the Kelvin sign (U+212A, whose lower case is \<open>k\<close>). Every other code point
  is left as it is; Python maps it to text outside ASCII, which equals none of the
  extensions either.
\<close>

definition lower_char :: "nat \<Rightarrow> nat" where
  "lower_char c = (if 65 \<le> c \<and> c \<le> 90 then c + 32 else if c = 8490 then 107 else c)"

definition lower :: "pystr \<Rightarrow> pystr" where
  "lower s = map lower_char s"

text \<open>
  \<open>PurePath.suffix\<close> of a file name: the text from the last dot on, unless there is no
  dot, the last dot is the first character, or it is the last character.
\<close>

definition rfind_dot :: "pystr \<Rightarrow> nat option" where
  "rfind_dot name =
     (let after = length (takeWhile (\<lambda>c. c \<noteq> dot) (rev name))
      in if after = length name then None else Some (length name - after - 1))"

definition path_suffix :: "pystr \<Rightarrow> pystr" where
  "path_suffix name =
     (case rfind_dot name of
        None \<Rightarrow> []
      | Some i \<Rightarrow> if 0 < i \<and> i + 1 < length name then drop i name else [])"

text \<open>\<open>Path(p).name\<close>: the last component of a path string.\<close>

definition path_name :: "pystr \<Rightarrow> pystr" where
  "path_name p = rev (takeWhile (\<lambda>c. c \<noteq> slash) (rev p))"

text \<open>\<open>str(directory / name)\<close>.\<close>

definition path_join :: "pystr \<Rightarrow> pystr \<Rightarrow> pystr" where
  "path_join d name = d @ [slash] @ name"

text \<open>The extensions and fixed texts of the two scripts, as code points.\<close>

definition ext_png :: pystr where "ext_png = [46, 112, 110, 103]"
definition ext_jpg :: pystr where "ext_jpg = [46, 106, 112, 103]"
definition ext_jpeg :: pystr where "ext_jpeg = [46, 106, 112, 101, 103]"
definition ext_PNG :: pystr where "ext_PNG = [46, 80, 78, 71]"
definition ext_JPG :: pystr where "ext_JPG = [46, 74, 80, 71]"
definition ext_JPEG :: pystr where "ext_JPEG = [46, 74, 80, 69, 71]"
definition ext_bmp :: pystr where "ext_bmp = [46, 98, 109, 112]"
definition ext_tiff :: pystr where "ext_tiff = [46, 116, 105, 102, 102]"
definition ext_txt :: pystr where "ext_txt = [46, 116, 120, 116]"
definition ext_TXT :: pystr where "ext_TXT = [46, 84, 88, 84]"

section \<open>The recognition engine boundary\<close>

text \<open>
  One call of \<open>pytesseract.image_to_string\<close> is determined by the image it is given
  (the original, opened with \<open>Image.open\<close>, or the preprocessed raster), the language
  set, and the page segmentation mode (\<open>--psm 6\<close>, a uniform block of text, or
  \<open>--psm 3\<close>, fully automatic page segmentation). The engine mode is \<open>--oem 3\<close> in
  every call.
\<close>

datatype image_ref = Original | Preprocessed
datatype lang = ThaEng | Eng
datatype psm = UniformBlock | FullPageAuto

type_synonym invocation = "image_ref \<times> lang \<times> psm"

text \<open>
  What the outside world holds for one image path: whether the OpenCV preprocessing
  raises (\<open>cv2.imread\<close> returns \<open>None\<close> for an undecodable file and the next line
  raises), whether \<open>Image.open\<close> raises, and what each engine call returns or raises.
  An exception is its message \<open>str(e)\<close>; only exceptions derived from \<open>Exception\<close>
  are modelled, which is what the handlers catch.
\<close>

record image_file =
  preprocess_error :: "pystr option"
  open_error :: "pystr option"
  image_to_string :: "invocation \<Rightarrow> pystr + pystr"

text \<open>A text file: the outcome of reading it as UTF-8 and, after a decoding error, as Latin-1.\<close>

datatype read_outcome = Decoded pystr | UnicodeDecodeError | OtherError pystr

record text_file =
  read_utf8 :: read_outcome
  read_latin1 :: "pystr + pystr"

text \<open>
  Console output: one constructor per \<open>print\<close> statement, carrying the values it
  interpolates (the closing summary of several \<open>print\<close> calls is one event).
\<close>

datatype event =
    ImageReadError pystr pystr
  | TextReadError pystr pystr
  | TextUnreadable pystr pystr
  | BookFolderMissing
  | NoFilesFound
  | FilesFound nat
  | Rule
  | Processing nat nat pystr
  | ReadingImage
  | ReadingText
  | ReadSuccess nat nat
  | NoContentInFile
  | Summary nat nat nat
  | ReadChars nat
  | Saved nat
  | NothingReadable

record extraction =
  extracted :: pystr
  invoked :: "invocation list"
  printed :: "event list"

text \<open>The message of the \<open>ValueError\<close> that \<open>max\<close> raises on an empty sequence.\<close>

definition value_error :: pystr where
  "value_error = [109, 97, 120, 40, 41, 32, 97, 114, 103, 32, 105, 115, 32, 97, 110, 32, 101, 109, 112, 116, 121, 32, 115, 101, 113, 117, 101, 110, 99, 101]"

text \<open>
  The four calls that the specification enumerates, in its order, and the three calls of
  \<open>extract_text_from_images.py\<close> in the order of that script.
\<close>

definition enumerated_invocations :: "invocation list" where
  "enumerated_invocations =
     [(Original, ThaEng, UniformBlock), (Preprocessed, ThaEng, UniformBlock),
      (Original, ThaEng, FullPageAuto), (Original, Eng, UniformBlock)]"

definition image_script_invocations :: "invocation list" where
  "image_script_invocations =
     [(Preprocessed, ThaEng, UniformBlock), (Original, ThaEng, UniformBlock),
      (Original, Eng, UniformBlock)]"

section \<open>\<open>read_book_to_text.py\<close>\<close>

text \<open>
  The body of the \<open>try\<close> block of \<open>extract_text_with_layout\<close>: the result is the
  returned text or the exception raised, with the engine calls started so far.
\<close>

definition extract_text_with_layout_try :: "image_file \<Rightarrow> (pystr + pystr) \<times> invocation list" where
  "extract_text_with_layout_try f =
     (case preprocess_error f of Some e \<Rightarrow> (Inl e, []) | None \<Rightarrow>
      case open_error f of Some e \<Rightarrow> (Inl e, []) | None \<Rightarrow>
      case image_to_string f (Original, ThaEng, UniformBlock) of
        Inl e \<Rightarrow> (Inl e, [(Original, ThaEng, UniformBlock)])
      | Inr text1 \<Rightarrow>
      case image_to_string f (Preprocessed, ThaEng, UniformBlock) of
        Inl e \<Rightarrow> (Inl e, [(Original, ThaEng, UniformBlock), (Preprocessed, ThaEng, UniformBlock)])
      | Inr text2 \<Rightarrow>
      case image_to_string f (Original, ThaEng, FullPageAuto) of
        Inl e \<Rightarrow> (Inl e, [(Original, ThaEng, UniformBlock), (Preprocessed, ThaEng, UniformBlock),
                          (Original, ThaEng, FullPageAuto)])
      | Inr text3 \<Rightarrow>
      case image_to_string f (Original, Eng, UniformBlock) of
        Inl e \<Rightarrow> (Inl e, [(Original, ThaEng, UniformBlock), (Preprocessed, ThaEng, UniformBlock),
                          (Original, ThaEng, FullPageAuto), (Original, Eng, UniformBlock)])
      | Inr text4 \<Rightarrow>
        (case select_layout [text1, text2, text3, text4] of
           None \<Rightarrow> Inl value_error
         | Some best_text \<Rightarrow> Inr (re_sub_newlines (strip best_text)),
         [(Original, ThaEng, UniformBlock), (Preprocessed, ThaEng, UniformBlock),
          (Original, ThaEng, FullPageAuto), (Original, Eng, UniformBlock)]))"

definition extract_text_with_layout :: "pystr \<Rightarrow> image_file \<Rightarrow> extraction" where
  "extract_text_with_layout image_path f =
     (case extract_text_with_layout_try f of
        (Inr t, calls) \<Rightarrow> \<lparr>extracted = t, invoked = calls, printed = []\<rparr>
      | (Inl e, calls) \<Rightarrow> \<lparr>extracted = [], invoked = calls, printed = [ImageReadError image_path e]\<rparr>)"

definition read_text_file :: "pystr \<Rightarrow> text_file \<Rightarrow> extraction" where
  "read_text_file file_path f =
     (case read_utf8 f of
        Decoded s \<Rightarrow> \<lparr>extracted = strip s, invoked = [], printed = []\<rparr>
      | UnicodeDecodeError \<Rightarrow>
          (case read_latin1 f of
             Inr s \<Rightarrow> \<lparr>extracted = strip s, invoked = [], printed = []\<rparr>
           | Inl e \<Rightarrow> \<lparr>extracted = [], invoked = [], printed = [TextUnreadable file_path e]\<rparr>)
      | OtherError e \<Rightarrow> \<lparr>extracted = [], invoked = [], printed = [TextReadError file_path e]\<rparr>)"

definition page_label :: pystr where
  "page_label = [3627, 3609, 3657, 3634, 3607, 3637, 3656, 32]"

definition format_page_separator :: "nat \<Rightarrow> pystr \<Rightarrow> pystr" where
  "format_page_separator page_num filename =
     [NL, NL] @ replicate 100 61 @ [NL] @ (page_label @ str_nat page_num @ [58, 32] @ filename)
       @ [NL] @ replicate 100 61 @ [NL, NL]"

text \<open>
  \<open>book_folder.glob('*' + ext)\<close> over the names of the entries of the folder, in the
  order of the directory listing: the names that end with the extension, compared
  case-sensitively (POSIX), hidden names included.
\<close>

definition path_glob :: "pystr list \<Rightarrow> pystr \<Rightarrow> pystr list" where
  "path_glob listing ext = filter (\<lambda>name. endswith name ext) listing"

text \<open>
  What \<open>main\<close> of \<open>read_book_to_text.py\<close> reads from the outside: the Book folder and
  its entries, the images and text files behind the paths, and the modification time
  (as \<open>str\<close> prints it) of a \<open>raw-output.txt\<close> left by an earlier run.
\<close>

record book_world =
  book_folder :: pystr
  book_exists :: bool
  book_listing :: "pystr list"
  book_image :: "pystr \<Rightarrow> image_file"
  book_text :: "pystr \<Rightarrow> text_file"
  output_mtime :: "pystr option"

text \<open>A file is represented by its name; \<open>all_files.sort(key=lambda x: x.name)\<close>.\<close>

definition book_all_files :: "pystr list \<Rightarrow> pystr list" where
  "book_all_files listing =
     sort_key (\<lambda>x. x)
       (concat (map (path_glob listing)
                  [ext_png, ext_jpg, ext_jpeg, ext_PNG, ext_JPG, ext_JPEG, ext_bmp, ext_tiff])
        @ concat (map (path_glob listing) [ext_txt, ext_TXT]))"

record progress =
  all_content :: "pystr list"
  console :: "event list"
  engine_calls :: "(pystr \<times> invocation) list"

text \<open>The dispatch on the lower-cased suffix (\<open>if\<close> / \<open>elif\<close>; otherwise the content stays empty).\<close>

definition book_read :: "book_world \<Rightarrow> pystr \<Rightarrow> extraction" where
  "book_read w filename =
     (let file_extension = lower (path_suffix filename);
          file_path = path_join (book_folder w) filename
      in if file_extension \<in> set [ext_png, ext_jpg, ext_jpeg, ext_bmp, ext_tiff] then
           (let r = extract_text_with_layout file_path (book_image w file_path)
            in r\<lparr>printed := ReadingImage # printed r\<rparr>)
         else if file_extension \<in> set [ext_txt] then
           (let r = read_text_file file_path (book_text w file_path)
            in r\<lparr>printed := ReadingText # printed r\<rparr>)
         else \<lparr>extracted = [], invoked = [], printed = []\<rparr>)"

text \<open>One iteration of the loop over \<open>enumerate(all_files, 1)\<close>.\<close>

definition book_step :: "book_world \<Rightarrow> nat \<Rightarrow> nat \<Rightarrow> pystr \<Rightarrow> progress \<Rightarrow> progress" where
  "book_step w n_files idx filename st =
     (let r = book_read w filename;
          content = extracted r;
          st1 = st\<lparr>console := console st @ [Processing idx n_files filename] @ printed r,
                   engine_calls := engine_calls st
                     @ map (\<lambda>c. (path_join (book_folder w) filename, c)) (invoked r)\<rparr>
      in if content \<noteq> [] then
           st1\<lparr>all_content := all_content st1 @ [format_page_separator idx filename, content],
               console := console st1
                 @ [ReadSuccess (length content) (count_newlines content + 1)]\<rparr>
         else st1\<lparr>console := console st1 @ [NoContentInFile]\<rparr>)"

fun book_loop :: "book_world \<Rightarrow> nat \<Rightarrow> nat \<Rightarrow> pystr list \<Rightarrow> progress \<Rightarrow> progress" where
  "book_loop w n_files idx [] st = st"
| "book_loop w n_files idx (filename # rest) st =
     book_loop w n_files (Suc idx) rest (book_step w n_files idx filename st)"

definition book_title :: pystr where
  "book_title = [128218, 32, 3626, 3619, 3640, 3611, 3648, 3609, 3639, 3657, 3629, 3627, 3634,
     3592, 3634, 3585, 3650, 3615, 3621, 3648, 3604, 3629, 3619, 3660, 32, 66, 111, 111, 107]"

definition count_label :: pystr where
  "count_label = [3592, 3635, 3609, 3623, 3609, 3652, 3615, 3621, 3660, 3607, 3633, 3657, 3591,
     3627, 3617, 3604, 58, 32]"

definition files_word :: pystr where
  "files_word = [32, 3652, 3615, 3621, 3660]"

definition date_label :: pystr where
  "date_label = [3623, 3633, 3609, 3607, 3637, 3656, 3611, 3619, 3632, 3617, 3623, 3621, 3612,
     3621, 58, 32]"

definition not_available :: pystr where
  "not_available = [78, 47, 65]"

text \<open>
  The header: a rule, the title, a rule, the number of files, the line labelled as the
  processing date, a rule. The value on the date line is the modification time of the
  output file when it exists already, and \<open>N/A\<close> otherwise.
\<close>

definition book_header :: "nat \<Rightarrow> pystr option \<Rightarrow> pystr" where
  "book_header file_count mtime =
     replicate 100 61 @ [NL] @ book_title @ [NL] @ replicate 100 61 @ [NL]
     @ count_label @ str_nat file_count @ files_word @ [NL]
     @ date_label @ (case mtime of Some t \<Rightarrow> t | None \<Rightarrow> not_available) @ [NL]
     @ replicate 100 61 @ [NL]"

text \<open>A run: the file written (if any), the console, and the engine calls with their paths.\<close>

record run =
  written :: "pystr option"
  shown :: "event list"
  run_calls :: "(pystr \<times> invocation) list"

definition book_main :: "book_world \<Rightarrow> run" where
  "book_main w =
     (if \<not> book_exists w then \<lparr>written = None, shown = [BookFolderMissing], run_calls = []\<rparr>
      else
        let all_files = book_all_files (book_listing w) in
        if all_files = [] then \<lparr>written = None, shown = [NoFilesFound], run_calls = []\<rparr>
        else
          let st = book_loop w (length all_files) 1 all_files
                     \<lparr>all_content = [], console = [FilesFound (length all_files), Rule],
                      engine_calls = []\<rparr>
          in if all_content st \<noteq> [] then
               (let final_text = concat (all_content st)
                in \<lparr>written = Some (book_header (length all_files) (output_mtime w) @ final_text),
                    shown = console st
                      @ [Summary (length all_files) (length final_text)
                           (count_newlines final_text + 1)],
                    run_calls = engine_calls st\<rparr>)
             else \<lparr>written = None, shown = console st @ [NothingReadable],
                   run_calls = engine_calls st\<rparr>)"

section \<open>\<open>extract_text_from_images.py\<close>\<close>

definition extract_text_from_image_try :: "image_file \<Rightarrow> (pystr + pystr) \<times> invocation list" where
  "extract_text_from_image_try f =
     (case preprocess_error f of Some e \<Rightarrow> (Inl e, []) | None \<Rightarrow>
      case image_to_string f (Preprocessed, ThaEng, UniformBlock) of
        Inl e \<Rightarrow> (Inl e, [(Preprocessed, ThaEng, UniformBlock)])
      | Inr text1 \<Rightarrow>
      case open_error f of Some e \<Rightarrow> (Inl e, [(Preprocessed, ThaEng, UniformBlock)]) | None \<Rightarrow>
      case image_to_string f (Original, ThaEng, UniformBlock) of
        Inl e \<Rightarrow> (Inl e, [(Preprocessed, ThaEng, UniformBlock), (Original, ThaEng, UniformBlock)])
      | Inr text2 \<Rightarrow>
      case image_to_string f (Original, Eng, UniformBlock) of
        Inl e \<Rightarrow> (Inl e, [(Preprocessed, ThaEng, UniformBlock), (Original, ThaEng, UniformBlock),
                          (Original, Eng, UniformBlock)])
      | Inr text3 \<Rightarrow>
        (case select_image [text1, text2, text3] of
           None \<Rightarrow> Inl value_error
         | Some best_text \<Rightarrow> Inr (strip best_text),
         [(Preprocessed, ThaEng, UniformBlock), (Original, ThaEng, UniformBlock),
          (Original, Eng, UniformBlock)]))"

definition extract_text_from_image :: "pystr \<Rightarrow> image_file \<Rightarrow> extraction" where
  "extract_text_from_image image_path f =
     (case extract_text_from_image_try f of
        (Inr t, calls) \<Rightarrow> \<lparr>extracted = t, invoked = calls, printed = []\<rparr>
      | (Inl e, calls) \<Rightarrow> \<lparr>extracted = [], invoked = calls, printed = [ImageReadError image_path e]\<rparr>)"

text \<open>
  \<open>glob.glob(str(current_dir / ('*' + ext)))\<close> takes the whole path as its pattern. It
  splits the pattern into the directory part and \<open>'*' + ext\<close>. When the directory part
  holds none of the characters \<open>*\<close>, \<open>?\<close> and \<open>[\<close> (\<open>glob.has_magic\<close>), the entries of
  that directory are matched against \<open>'*' + ext\<close>. Otherwise the directory part is itself
  expanded as a pattern first, and the entries of every directory it matches are matched
  against \<open>'*' + ext\<close>. A match is returned as \<open>os.path.join(directory, name)\<close>.
\<close>

definition has_magic :: "pystr \<Rightarrow> bool" where
  "has_magic s \<longleftrightarrow> 42 \<in> set s \<or> 63 \<in> set s \<or> 91 \<in> set s"

text \<open>\<open>os.path.join(d, name)\<close> for a name that does not start with a slash.\<close>

definition os_path_join :: "pystr \<Rightarrow> pystr \<Rightarrow> pystr" where
  "os_path_join d name =
     (if d = [] then name else if last d = slash then d @ name else d @ [slash] @ name)"

text \<open>
  The matches of \<open>'*' + ext\<close> among the entries of one directory: the names that end with
  the extension (case-sensitively) and do not start with a dot, in the order of the
  directory listing.
\<close>

definition glob1 :: "pystr \<Rightarrow> pystr list \<Rightarrow> pystr \<Rightarrow> pystr list" where
  "glob1 d listing ext =
     map (os_path_join d)
       (filter (\<lambda>name. endswith name ext \<and> \<not> (name \<noteq> [] \<and> hd name = dot)) listing)"

text \<open>
  What \<open>main\<close> of \<open>extract_text_from_images.py\<close> reads from the outside: the directory
  part of the pattern (the path of the script's directory; empty when that path is
  \<open>.\<close>), the entries of the script's directory, the directories that the directory part
  matches when it is expanded as a pattern, each with its entries, and the images behind
  the paths.
\<close>

record images_world =
  current_dir :: pystr
  dir_listing :: "pystr list"
  dir_matches :: "(pystr \<times> pystr list) list"
  dir_image :: "pystr \<Rightarrow> image_file"

definition glob_glob :: "images_world \<Rightarrow> pystr \<Rightarrow> pystr list" where
  "glob_glob w ext =
     (if has_magic (current_dir w)
      then concat (map (\<lambda>(d, listing). glob1 d listing ext) (dir_matches w))
      else glob1 (current_dir w) (dir_listing w) ext)"

definition image_files :: "images_world \<Rightarrow> pystr list" where
  "image_files w =
     sort_key (\<lambda>x. x)
       (concat (map (glob_glob w) [ext_png, ext_jpg, ext_jpeg, ext_PNG, ext_JPG, ext_JPEG]))"

record images_progress =
  all_text :: "pystr list"
  images_console :: "event list"
  images_calls :: "(pystr \<times> invocation) list"

definition file_label :: pystr where
  "file_label = [3652, 3615, 3621, 3660, 58, 32]"

definition images_step :: "images_world \<Rightarrow> nat \<Rightarrow> nat \<Rightarrow> pystr \<Rightarrow> images_progress \<Rightarrow> images_progress" where
  "images_step w n_files idx image_path st =
     (let filename = path_name image_path;
          r = extract_text_from_image image_path (dir_image w image_path);
          st1 = st\<lparr>images_console := images_console st @ [Processing idx n_files filename] @ printed r,
                   images_calls := images_calls st @ map (\<lambda>c. (image_path, c)) (invoked r)\<rparr>
      in if extracted r \<noteq> [] then
           st1\<lparr>all_text := all_text st1
                 @ [replicate 80 61, file_label @ filename, replicate 80 61, extracted r, []],
               images_console := images_console st1 @ [ReadChars (length (extracted r))]\<rparr>
         else st1\<lparr>images_console := images_console st1 @ [NoContentInFile]\<rparr>)"

fun images_loop :: "images_world \<Rightarrow> nat \<Rightarrow> nat \<Rightarrow> pystr list \<Rightarrow> images_progress \<Rightarrow> images_progress" where
  "images_loop w n_files idx [] st = st"
| "images_loop w n_files idx (image_path # rest) st =
     images_loop w n_files (Suc idx) rest (images_step w n_files idx image_path st)"

definition images_main :: "images_world \<Rightarrow> run" where
  "images_main w =
     (let files = image_files w in
      if files = [] then \<lparr>written = None, shown = [NoFilesFound], run_calls = []\<rparr>
      else
        let st = images_loop w (length files) 1 files
                   \<lparr>all_text = [], images_console = [FilesFound (length files), Rule],
                    images_calls = []\<rparr>
        in if all_text st \<noteq> [] then
             \<lparr>written = Some (join [NL] (all_text st)),
              shown = images_console st @ [Saved (length (all_text st))],
              run_calls = images_calls st\<rparr>
           else \<lparr>written = None, shown = images_console st @ [NothingReadable],
                 run_calls = images_calls st\<rparr>)"

section \<open>The extension lists\<close>



definition script_image_extensions :: "pystr list" where
  "script_image_extensions = [ext_png, ext_jpg, ext_jpeg, ext_PNG, ext_JPG, ext_JPEG]"



section \<open>The loops seen as a whole\<close>

text \<open>
  The pages of a Book run: the files with non-empty content, each with its index in
  \<open>enumerate(all_files, 1)\<close>; what the loop appends for one page; what it prints for
  one file; the engine calls of one file.
\<close>

definition has_content :: "book_world \<Rightarrow> nat \<times> pystr \<Rightarrow> bool" where
  "has_content w = (\<lambda>(idx, filename). extracted (book_read w filename) \<noteq> [])"

definition book_pages :: "book_world \<Rightarrow> pystr list \<Rightarrow> (nat \<times> pystr) list" where
  "book_pages w files = filter (has_content w) (enumerate 1 files)"

definition render_page :: "book_world \<Rightarrow> nat \<times> pystr \<Rightarrow> pystr list" where
  "render_page w = (\<lambda>(idx, filename).
     [format_page_separator idx filename, extracted (book_read w filename)])"

definition book_file_log :: "book_world \<Rightarrow> nat \<Rightarrow> nat \<times> pystr \<Rightarrow> event list" where
  "book_file_log w n_files = (\<lambda>(idx, filename).
     [Processing idx n_files filename] @ printed (book_read w filename)
     @ [if extracted (book_read w filename) \<noteq> []
        then ReadSuccess (length (extracted (book_read w filename)))
               (count_newlines (extracted (book_read w filename)) + 1)
        else NoContentInFile])"


text \<open>The same for \<open>extract_text_from_images.py\<close>, where a file is its path.\<close>

definition image_text :: "images_world \<Rightarrow> pystr \<Rightarrow> pystr" where
  "image_text w image_path = extracted (extract_text_from_image image_path (dir_image w image_path))"

definition image_pages :: "images_world \<Rightarrow> pystr list \<Rightarrow> pystr list" where
  "image_pages w files = filter (\<lambda>image_path. image_text w image_path \<noteq> []) files"

definition render_image_page :: "images_world \<Rightarrow> pystr \<Rightarrow> pystr list" where
  "render_image_page w image_path =
     [replicate 80 61, file_label @ path_name image_path, replicate 80 61,
      image_text w image_path, []]"

definition image_file_log :: "images_world \<Rightarrow> nat \<Rightarrow> nat \<times> pystr \<Rightarrow> event list" where
  "image_file_log w n_files = (\<lambda>(idx, image_path).
     [Processing idx n_files (path_name image_path)]
     @ printed (extract_text_from_image image_path (dir_image w image_path))
     @ [if image_text w image_path \<noteq> [] then ReadChars (length (image_text w image_path))
        else NoContentInFile])"


text \<open>The file names that the console shows as processed, in the order shown.\<close>

fun processed_names :: "event list \<Rightarrow> pystr list" where
  "processed_names [] = []"
| "processed_names (Processing idx n_files filename # es) = filename # processed_names es"
| "processed_names (e # es) = processed_names es"

text \<open>Ordinals that follow each other without a gap.\<close>

fun consecutive :: "nat list \<Rightarrow> bool" where
  "consecutive [] = True"
| "consecutive [x] = True"
| "consecutive (x # y # ys) = (y = Suc x \<and> consecutive (y # ys))"

text \<open>\<open>needle in s\<close> for strings.\<close>

fun contains :: "pystr \<Rightarrow> pystr \<Rightarrow> bool" where
  "contains [] needle = (needle = [])"
| "contains (c # cs) needle = (take (length needle) (c # cs) = needle \<or> contains cs needle)"




section \<open>Sample inputs\<close>

text \<open>An image on which every engine call returns the text \<open>"a"\<close>.\<close>

definition plain_image :: image_file where
  "plain_image = \<lparr>preprocess_error = None, open_error = None, image_to_string = (\<lambda>c. Inr [97])\<rparr>"


text \<open>An image that cannot be decoded: the preprocessing raises.\<close>

definition broken_image :: image_file where
  "broken_image = \<lparr>preprocess_error = Some [98, 97, 100], open_error = None,
     image_to_string = (\<lambda>c. Inr [97])\<rparr>"

definition a_png :: pystr where "a_png = [97, 46, 112, 110, 103]"
definition b_png :: pystr where "b_png = [98, 46, 112, 110, 103]"
definition c_txt :: pystr where "c_txt = [99, 46, 116, 120, 116]"
definition a_bmp :: pystr where "a_bmp = [97, 46, 98, 109, 112]"

text \<open>
  A Book folder with the given listing, in which \<open>b.png\<close> cannot be decoded, every other
  image reads as \<open>"a"\<close>, every text file holds \<open>"hi"\<close>, and no output file exists yet.
\<close>

definition book_sample :: "pystr list \<Rightarrow> book_world" where
  "book_sample listing =
     \<lparr>book_folder = [66, 111, 111, 107], book_exists = True, book_listing = listing,
      book_image = (\<lambda>p. if p = [66, 111, 111, 107, 47, 98, 46, 112, 110, 103]
                         then broken_image else plain_image),
      book_text = (\<lambda>p. \<lparr>read_utf8 = Decoded [104, 105], read_latin1 = Inr []\<rparr>),
      output_mtime = None\<rparr>"

text \<open>The script's directory \<open>d\<close> with the given listing and the same images.\<close>

definition images_sample :: "pystr list \<Rightarrow> images_world" where
  "images_sample listing =
     \<lparr>current_dir = [100], dir_listing = listing, dir_matches = [],
      dir_image = (\<lambda>p. if p = [100, 47, 98, 46, 112, 110, 103] then broken_image else plain_image)\<rparr>"

text \<open>
  The script in the directory \<open>/x*\<close>, which holds \<open>b.png\<close>, beside the directory \<open>/xy\<close>,
  which holds \<open>a.png\<close>: as a pattern, \<open>/x*\<close> matches both directories. Every image reads
  as \<open>"a"\<close>.
\<close>

definition star_sample :: images_world where
  "star_sample =
     \<lparr>current_dir = [47, 120, 42], dir_listing = [b_png],
      dir_matches = [([47, 120, 42], [b_png]), ([47, 120, 121], [a_png])],
      dir_image = (\<lambda>p. plain_image)\<rparr>"

section \<open>Properties\<close>

lemma re_sub_newlines_other:
  "\<not> is_nl c \<Longrightarrow> re_sub_newlines (c # cs) = c # re_sub_newlines cs"
  by simp

subsection \<open>The newline-collapse rule\<close>

lemma re_sub_newlines_block:
  assumes "rest = [] \<or> \<not> is_nl (hd rest)"
  shows "re_sub_newlines (replicate (Suc n) NL @ rest) =
           (if 2 \<le> n then [NL, NL] else replicate (Suc n) NL) @ re_sub_newlines rest"
proof -
  have tw: "\<And>k. takeWhile is_nl (replicate k NL @ rest) = replicate k NL"
  proof -
    fix k show "takeWhile is_nl (replicate k NL @ rest) = replicate k NL"
      using assms by (induction k) (auto simp: is_nl_def takeWhile_eq_Nil_iff hd_conv_nth neq_Nil_conv)
  qed
  have dw: "\<And>k. dropWhile is_nl (replicate k NL @ rest) = rest"
  proof -
    fix k show "dropWhile is_nl (replicate k NL @ rest) = rest"
      using assms by (induction k) (auto simp: is_nl_def dropWhile_eq_self_iff)
  qed
  show ?thesis
  proof (cases "2 \<le> n")
    case True
    have "replicate (Suc n) NL @ rest = NL # (replicate n NL @ rest)" by simp
    moreover have "3 \<le> length (takeWhile is_nl (replicate (Suc n) NL @ rest))"
      using True by (simp only: tw) simp
    ultimately show ?thesis using True dw[of "Suc n"] 
      by (metis re_sub_newlines.simps(2))
  next
    case False
    then consider "n = 0" | "n = 1" by linarith
    then show ?thesis
    proof cases
      case 1
      then show ?thesis using tw[of 1] tw[of 0] by simp
    next
      case 2
      then show ?thesis using tw[of 2] tw[of 1] tw[of 0] by (simp add: numeral_2_eq_2)
    qed
  qed
qed

lemma text_defs:
  "s = [] \<or> (\<exists>c cs. s = c # cs \<and> \<not> is_nl c) \<or>
   (\<exists>n rest. s = replicate (Suc n) NL @ rest \<and> (rest = [] \<or> \<not> is_nl (hd rest)))"
proof (cases s)
  case Nil
  then show ?thesis by simp
next
  case (Cons c cs)
  show ?thesis
  proof (cases "is_nl c")
    case False
    with Cons show ?thesis by blast
  next
    case True
    let ?t = "takeWhile is_nl s" and ?d = "dropWhile is_nl s"
    have "?t = replicate (length ?t) NL"
      by (metis (full_types) is_nl_def replicate_length_same set_takeWhileD)
    moreover have "length ?t \<noteq> 0" using Cons True by simp
    ultimately obtain n where "?t = replicate (Suc n) NL"
      by (metis not0_implies_Suc)
    moreover have "?d = [] \<or> \<not> is_nl (hd ?d)"
      by (metis hd_dropWhile)
    moreover have "s = ?t @ ?d" by simp
    ultimately show ?thesis by metis
  qed
qed

lemma re_sub_newlines_Nil_iff: "re_sub_newlines s = [] \<longleftrightarrow> s = []"
  by (cases s) auto

lemma re_sub_newlines_hd: "s \<noteq> [] \<Longrightarrow> is_nl (hd (re_sub_newlines s)) = is_nl (hd s)"
  by (cases s) (auto simp: is_nl_def)









lemma re_sub_newlines_idem: "re_sub_newlines (re_sub_newlines s) = re_sub_newlines s"
proof (induction "length s" arbitrary: s rule: less_induct)
  case less
  from text_defs[of s] consider "s = []"
    | c cs where "s = c # cs" "\<not> is_nl c"
    | n rest where "s = replicate (Suc n) NL @ rest" "rest = [] \<or> \<not> is_nl (hd rest)"
    by blast
  then show ?case
  proof cases
    case 1
    then show ?thesis by simp
  next
    case 2
    then show ?thesis using less[of cs] by simp
  next
    case 3
    have len: "length rest < length s" using 3(1) by simp
    have r: "re_sub_newlines rest = [] \<or> \<not> is_nl (hd (re_sub_newlines rest))"
      using 3(2) re_sub_newlines_hd[of rest] by (auto simp: re_sub_newlines_Nil_iff)
    have two: "[NL, NL] = replicate (Suc 1) NL" by (simp add: numeral_2_eq_2)
    show ?thesis
    proof (cases "2 \<le> n")
      case True
      have "re_sub_newlines s = replicate (Suc 1) NL @ re_sub_newlines rest"
        unfolding 3(1) re_sub_newlines_block[OF 3(2)] using True by simp
      then show ?thesis using re_sub_newlines_block[OF r, of 1] less[OF len] by simp
    next
      case False
      have "re_sub_newlines s = replicate (Suc n) NL @ re_sub_newlines rest"
        unfolding 3(1) re_sub_newlines_block[OF 3(2)] using False by simp
      then show ?thesis using re_sub_newlines_block[OF r, of n] less[OF len] False by simp
    qed
  qed
qed

lemma concat_segments: "concat (segments s) = s"
  by (induction s) (auto split: list.splits)

subsection \<open>Candidate selection\<close>

lemma max_key_from_first_max:
  assumes "i < length pre"
    and "\<forall>j<length pre. f (pre ! j) \<le> f (pre ! i)"
    and "\<forall>j<i. f (pre ! j) < f (pre ! i)"
  shows "\<exists>k<length (pre @ xs). max_key_from f (pre ! i) xs = (pre @ xs) ! k
           \<and> (\<forall>j<length (pre @ xs). f ((pre @ xs) ! j) \<le> f ((pre @ xs) ! k))
           \<and> (\<forall>j<k. f ((pre @ xs) ! j) < f ((pre @ xs) ! k))"
  using assms
proof (induction xs arbitrary: pre i)
  case Nil
  then show ?case by auto
next
  case (Cons x xs)
  let ?pre = "pre @ [x]"
  show ?case
  proof (cases "f (pre ! i) < f x")
    case True
    have a: "length pre < length ?pre" by simp
    have b: "\<forall>j<length ?pre. f (?pre ! j) \<le> f (?pre ! length pre)"
      using Cons.prems True by (auto simp: nth_append less_Suc_eq intro: order.trans less_imp_le)
    have c: "\<forall>j<length pre. f (?pre ! j) < f (?pre ! length pre)"
      using Cons.prems True by (auto simp: nth_append intro: le_less_trans)
    from Cons.IH[OF a b c] True show ?thesis by simp
  next
    case False
    have a: "i < length ?pre" using Cons.prems by simp
    have b: "\<forall>j<length ?pre. f (?pre ! j) \<le> f (?pre ! i)"
      using Cons.prems False by (auto simp: nth_append less_Suc_eq)
    have c: "\<forall>j<i. f (?pre ! j) < f (?pre ! i)"
      using Cons.prems by (auto simp: nth_append)
    from Cons.IH[OF a b c] False Cons.prems(1) show ?thesis by (simp add: nth_append)
  qed
qed

lemma max_key_first_max:
  assumes "xs \<noteq> []"
  shows "\<exists>k<length xs. max_key f xs = Some (xs ! k)
           \<and> (\<forall>j<length xs. f (xs ! j) \<le> f (xs ! k))
           \<and> (\<forall>j<k. f (xs ! j) < f (xs ! k))"
proof -
  from assms obtain x rest where xs: "xs = x # rest" by (cases xs) auto
  have "\<exists>k<length ([x] @ rest). max_key_from f ([x] ! 0) rest = ([x] @ rest) ! k
           \<and> (\<forall>j<length ([x] @ rest). f (([x] @ rest) ! j) \<le> f (([x] @ rest) ! k))
           \<and> (\<forall>j<k. f (([x] @ rest) ! j) < f (([x] @ rest) ! k))"
    by (rule max_key_from_first_max) auto
  then show ?thesis by (simp add: xs max_key_def)
qed

text \<open>
  Claim C1, as amended. On a nonempty sequence of candidates, the selector of
  \<open>read_book_to_text.py\<close> returns the earliest candidate whose length after trimming is
  maximal, and the selector of \<open>extract_text_from_images.py\<close> returns the earliest
  candidate whose untrimmed length is maximal.
\<close>

theorem select_stable_max:
  assumes "results \<noteq> []"
  shows "(\<exists>k<length results. select_layout results = Some (results ! k)
           \<and> (\<forall>j<length results. length (strip (results ! j)) \<le> length (strip (results ! k)))
           \<and> (\<forall>j<k. length (strip (results ! j)) < length (strip (results ! k))))
       \<and> (\<exists>k<length results. select_image results = Some (results ! k)
           \<and> (\<forall>j<length results. length (results ! j) \<le> length (results ! k))
           \<and> (\<forall>j<k. length (results ! j) < length (results ! k)))"
  unfolding select_layout_def select_image_def
  using max_key_first_max[OF assms, of "\<lambda>x. length (strip x)"] max_key_first_max[OF assms, of length]
  by blast

text \<open>
  Four candidates of trimmed lengths 1, 2, 2 and 0: both selectors return the first
  of the two longest.
\<close>

theorem select_stable_max_witness:
  "[[97], [98, 99], [100, 101], [32::nat]] \<noteq> []
   \<and> select_layout [[97], [98, 99], [100, 101], [32]] = Some [98, 99]
   \<and> select_image [[97], [98, 99], [100, 101], [32]] = Some [98, 99]"
  using select_stable_max[of "[[97], [98, 99], [100, 101], [32]]"]
  by (simp add: select_layout_def select_image_def max_key_def strip_def lstrip_def rstrip_def isspace_def)

text \<open>
  Claim C1 as stated fails in \<open>extract_text_from_images.py\<close>: of the candidates
  \<open>"a"\<close>, two spaces and the empty text, the selector returns the two spaces, whose
  trimmed length 0 is smaller than the trimmed length 1 of \<open>"a"\<close>.
\<close>

theorem select_image_counterexample:
  "select_image [[97], [32, 32], []] = Some [32, 32]
   \<and> length (strip [32, 32]) < length (strip [97])"
  by (simp add: select_image_def max_key_def strip_def lstrip_def rstrip_def isspace_def)

subsection \<open>The engine calls of one image\<close>

lemma layout_try_prefix:
  "prefix (snd (extract_text_with_layout_try f)) enumerated_invocations"
  by (simp add: extract_text_with_layout_try_def enumerated_invocations_def
      split: option.splits sum.splits)

lemma layout_try_complete:
  "fst (extract_text_with_layout_try f) = Inr t \<Longrightarrow>
     snd (extract_text_with_layout_try f) = enumerated_invocations"
  by (simp add: extract_text_with_layout_try_def enumerated_invocations_def
      split: option.splits sum.splits)

lemma layout_try_no_early_exit:
  assumes "preprocess_error f = None" "open_error f = None"
    and "\<forall>c\<in>set enumerated_invocations. \<exists>t. image_to_string f c = Inr t"
  shows "\<exists>t. extract_text_with_layout_try f = (Inr t, enumerated_invocations)"
proof -
  from assms(3) obtain t1 t2 t3 t4 where
    "image_to_string f (Original, ThaEng, UniformBlock) = Inr t1"
    "image_to_string f (Preprocessed, ThaEng, UniformBlock) = Inr t2"
    "image_to_string f (Original, ThaEng, FullPageAuto) = Inr t3"
    "image_to_string f (Original, Eng, UniformBlock) = Inr t4"
    unfolding enumerated_invocations_def by auto
  then show ?thesis using assms(1,2)
    by (simp add: extract_text_with_layout_try_def enumerated_invocations_def
        select_layout_def max_key_def)
qed

lemma image_try_prefix:
  "prefix (snd (extract_text_from_image_try f)) image_script_invocations"
  by (simp add: extract_text_from_image_try_def image_script_invocations_def
      split: option.splits sum.splits)

lemma image_try_complete:
  "fst (extract_text_from_image_try f) = Inr t \<Longrightarrow>
     snd (extract_text_from_image_try f) = image_script_invocations"
  by (simp add: extract_text_from_image_try_def image_script_invocations_def
      split: option.splits sum.splits)

lemma image_try_no_early_exit:
  assumes "preprocess_error f = None" "open_error f = None"
    and "\<forall>c\<in>set image_script_invocations. \<exists>t. image_to_string f c = Inr t"
  shows "\<exists>t. extract_text_from_image_try f = (Inr t, image_script_invocations)"
proof -
  from assms(3) obtain t1 t2 t3 where
    "image_to_string f (Preprocessed, ThaEng, UniformBlock) = Inr t1"
    "image_to_string f (Original, ThaEng, UniformBlock) = Inr t2"
    "image_to_string f (Original, Eng, UniformBlock) = Inr t3"
    unfolding image_script_invocations_def by auto
  then show ?thesis using assms(1,2)
    by (simp add: extract_text_from_image_try_def image_script_invocations_def
        select_image_def max_key_def)
qed



lemma strip_decompose:
  "\<exists>pre post. s = pre @ strip s @ post \<and> (\<forall>c\<in>set pre. isspace c) \<and> (\<forall>c\<in>set post. isspace c)
     \<and> (strip s \<noteq> [] \<longrightarrow> \<not> isspace (hd (strip s)) \<and> \<not> isspace (last (strip s)))"
proof -
  let ?pre = "takeWhile isspace s" and ?m = "dropWhile isspace s"
  let ?post = "rev (takeWhile isspace (rev ?m))"
  have m: "rev ?m = takeWhile isspace (rev ?m) @ dropWhile isspace (rev ?m)" by simp
  have "?m = rev (dropWhile isspace (rev ?m)) @ ?post"
    by (metis m rev_append rev_rev_ident)
  then have 1: "s = ?pre @ strip s @ ?post"
    by (metis strip_def lstrip_def rstrip_def takeWhile_dropWhile_id)
  have 2: "\<forall>c\<in>set ?pre. isspace c" by (auto dest: set_takeWhileD)
  have 3: "\<forall>c\<in>set ?post. isspace c" by (auto dest: set_takeWhileD)
  have 4: "strip s \<noteq> [] \<longrightarrow> \<not> isspace (last (strip s))"
    unfolding strip_def lstrip_def rstrip_def
    by (metis hd_dropWhile last_rev rev_is_Nil_conv)
  have 5: "strip s \<noteq> [] \<longrightarrow> \<not> isspace (hd (strip s))"
  proof
    assume ne: "strip s \<noteq> []"
    have "strip s = rev (dropWhile isspace (rev ?m))"
      by (simp add: strip_def lstrip_def rstrip_def)
    have mne: "?m \<noteq> []"
    proof
      assume e: "?m = []"
      have "strip s = rev (dropWhile isspace (rev ?m))"
        by (simp add: strip_def lstrip_def rstrip_def)
      also have "\<dots> = []" unfolding e by simp
      finally show False using ne by simp
    qed
    then have hm: "\<not> isspace (hd ?m)" by (rule hd_dropWhile)
    have "hd (strip s) = hd ?m"
    proof -
      from \<open>?m = rev (dropWhile isspace (rev ?m)) @ ?post\<close>
      have "?m = strip s @ ?post" by (simp add: strip_def lstrip_def rstrip_def)
      then show ?thesis using ne by (metis hd_append2)
    qed
    with hm show "\<not> isspace (hd (strip s))" by simp
  qed
  from 1 2 3 4 5 show ?thesis by blast
qed

text \<open>
  Claim C8. The newline-collapse rule is idempotent: applied to its own result it
  changes nothing.
\<close>

theorem collapse_idempotent:
  "re_sub_newlines (re_sub_newlines s) = re_sub_newlines s"
  by (rule re_sub_newlines_idem)

text \<open>
  Claim C2, as amended. In \<open>read_book_to_text.py\<close> the engine calls of one image are
  always an initial part of the four enumerated calls in their order; they are all four
  whenever the function reaches the selection, and when nothing raises all four are made
  whatever the texts returned. \<open>extract_text_from_images.py\<close> makes three calls in the
  same manner: preprocessed raster, original, original with English only, all in
  uniform-block mode.
\<close>

theorem engine_invocations_in_order:
  "prefix (snd (extract_text_with_layout_try f)) enumerated_invocations
   \<and> (\<forall>t. fst (extract_text_with_layout_try f) = Inr t \<longrightarrow>
          snd (extract_text_with_layout_try f) = enumerated_invocations)
   \<and> (preprocess_error f = None \<and> open_error f = None
        \<and> (\<forall>c\<in>set enumerated_invocations. \<exists>t. image_to_string f c = Inr t) \<longrightarrow>
      (\<exists>t. extract_text_with_layout_try f = (Inr t, enumerated_invocations)))
   \<and> prefix (snd (extract_text_from_image_try f)) image_script_invocations
   \<and> (\<forall>t. fst (extract_text_from_image_try f) = Inr t \<longrightarrow>
          snd (extract_text_from_image_try f) = image_script_invocations)
   \<and> (preprocess_error f = None \<and> open_error f = None
        \<and> (\<forall>c\<in>set image_script_invocations. \<exists>t. image_to_string f c = Inr t) \<longrightarrow>
      (\<exists>t. extract_text_from_image_try f = (Inr t, image_script_invocations)))"
  using layout_try_prefix[of f] layout_try_complete[of f] layout_try_no_early_exit[of f]
    image_try_prefix[of f] image_try_complete[of f] image_try_no_early_exit[of f]
  by blast

theorem engine_invocations_in_order_witness:
  "preprocess_error plain_image = None \<and> open_error plain_image = None
   \<and> image_to_string plain_image (Original, ThaEng, UniformBlock) = Inr [97]
   \<and> image_to_string plain_image (Preprocessed, ThaEng, UniformBlock) = Inr [97]
   \<and> image_to_string plain_image (Original, ThaEng, FullPageAuto) = Inr [97]
   \<and> image_to_string plain_image (Original, Eng, UniformBlock) = Inr [97]
   \<and> extract_text_with_layout_try plain_image = (Inr [97], enumerated_invocations)
   \<and> extract_text_from_image_try plain_image = (Inr [97], image_script_invocations)"
  using engine_invocations_in_order[of plain_image]
  by (simp add: plain_image_def extract_text_with_layout_try_def extract_text_from_image_try_def
      enumerated_invocations_def image_script_invocations_def select_layout_def select_image_def
      max_key_def strip_def lstrip_def rstrip_def isspace_def NL_def is_nl_def)

text \<open>
  Claim C2 as stated fails in \<open>extract_text_from_images.py\<close>: on an image where
  nothing raises, the calls made are three, starting with the preprocessed raster, and
  not the four enumerated ones.
\<close>

theorem image_script_invocations_counterexample:
  "snd (extract_text_from_image_try plain_image) =
     [(Preprocessed, ThaEng, UniformBlock), (Original, ThaEng, UniformBlock),
      (Original, Eng, UniformBlock)]
   \<and> snd (extract_text_from_image_try plain_image) \<noteq> enumerated_invocations"
  by (simp add: plain_image_def extract_text_from_image_try_def enumerated_invocations_def
      select_image_def max_key_def)

lemma book_read_image:
  assumes "lower (path_suffix filename) \<in> set [ext_png, ext_jpg, ext_jpeg, ext_bmp, ext_tiff]"
  shows "extracted (book_read w filename) =
           extracted (extract_text_with_layout (path_join (book_folder w) filename)
                        (book_image w (path_join (book_folder w) filename)))"
    and "invoked (book_read w filename) =
           invoked (extract_text_with_layout (path_join (book_folder w) filename)
                        (book_image w (path_join (book_folder w) filename)))"
  using assms by (simp_all add: book_read_def Let_def)

lemma book_step_content:
  "extracted (book_read w filename) \<noteq> [] \<Longrightarrow>
     all_content (book_step w n idx filename st) =
       all_content st @ [format_page_separator idx filename, extracted (book_read w filename)]"
  "extracted (book_read w filename) = [] \<Longrightarrow>
     all_content (book_step w n idx filename st) = all_content st"
  by (simp_all add: book_step_def Let_def)

lemma images_step_text:
  "extracted (extract_text_from_image p (dir_image w p)) \<noteq> [] \<Longrightarrow>
     all_text (images_step w n idx p st) =
       all_text st @ [replicate 80 61, file_label @ path_name p, replicate 80 61,
                      extracted (extract_text_from_image p (dir_image w p)), []]"
  "extracted (extract_text_from_image p (dir_image w p)) = [] \<Longrightarrow>
     all_text (images_step w n idx p st) = all_text st"
  by (simp_all add: images_step_def Let_def)



subsection \<open>The loops of the two main programs\<close>

lemma book_loop_all_content:
  "all_content (book_loop w n idx names st) =
     all_content st @ concat (map (render_page w) (filter (has_content w) (enumerate idx names)))"
proof (induction names arbitrary: idx st)
  case Nil
  then show ?case by simp
next
  case (Cons name names)
  show ?case
    by (cases "extracted (book_read w name) = []")
       (simp_all add: Cons.IH book_step_content has_content_def render_page_def)
qed

lemma book_step_console:
  "console (book_step w n idx name st) = console st @ book_file_log w n (idx, name)"
  by (simp add: book_step_def book_file_log_def Let_def)

lemma book_loop_console:
  "console (book_loop w n idx names st) =
     console st @ concat (map (book_file_log w n) (enumerate idx names))"
  by (induction names arbitrary: idx st) (simp_all add: book_step_console)



lemma images_loop_all_text:
  "all_text (images_loop w n idx files st) =
     all_text st @ concat (map (render_image_page w) (image_pages w files))"
proof (induction files arbitrary: idx st)
  case Nil
  then show ?case by (simp add: image_pages_def)
next
  case (Cons p files)
  show ?case
    by (cases "image_text w p = []")
       (simp_all add: Cons.IH images_step_text image_pages_def render_image_page_def
          image_text_def)
qed

lemma images_step_console:
  "images_console (images_step w n idx p st) = images_console st @ image_file_log w n (idx, p)"
  by (simp add: images_step_def image_file_log_def image_text_def Let_def)

lemma images_loop_console:
  "images_console (images_loop w n idx files st) =
     images_console st @ concat (map (image_file_log w n) (enumerate idx files))"
  by (induction files arbitrary: idx st) (simp_all add: images_step_console)



subsection \<open>When the output file is written\<close>

lemmas ext_defs = ext_png_def ext_jpg_def ext_jpeg_def ext_PNG_def ext_JPG_def ext_JPEG_def
  ext_bmp_def ext_tiff_def ext_txt_def ext_TXT_def

lemmas sample_defs = a_png_def b_png_def c_txt_def a_bmp_def

lemma render_page_not_Nil: "render_page w x \<noteq> []"
  by (cases x) (simp add: render_page_def)

lemma concat_render_Nil_iff:
  "concat (map (render_page w) xs) = [] \<longleftrightarrow> xs = []"
  by (cases xs) (simp_all add: render_page_not_Nil)

lemma no_page_iff:
  "filter (has_content w) (enumerate idx names) = [] \<longleftrightarrow>
     (\<forall>name\<in>set names. extracted (book_read w name) = [])"
proof -
  have "filter (has_content w) (enumerate idx names) = [] \<longleftrightarrow>
          (\<forall>x\<in>set (enumerate idx names). extracted (book_read w (snd x)) = [])"
    by (auto simp: filter_empty_conv has_content_def)
  also have "\<dots> \<longleftrightarrow> (\<forall>name\<in>snd ` set (enumerate idx names). extracted (book_read w name) = [])"
    by blast
  also have "snd ` set (enumerate idx names) = set names"
    by (metis map_snd_enumerate set_map)
  finally show ?thesis .
qed

lemma book_loop_no_content:
  "all_content (book_loop w n idx names st) = [] \<longleftrightarrow>
     all_content st = [] \<and> (\<forall>name\<in>set names. extracted (book_read w name) = [])"
  unfolding book_loop_all_content
  by (metis append_is_Nil_conv concat_render_Nil_iff no_page_iff)

lemma book_main_written_None_iff:
  "written (book_main w) = None \<longleftrightarrow>
     \<not> (book_exists w \<and> (\<exists>name\<in>set (book_all_files (book_listing w)).
                             extracted (book_read w name) \<noteq> []))"
  by (auto simp: book_main_def Let_def book_loop_no_content)

lemma book_main_reports:
  "written (book_main w) = None \<Longrightarrow>
     last (shown (book_main w)) \<in> {BookFolderMissing, NoFilesFound, NothingReadable}"
  by (auto simp: book_main_def Let_def split: if_splits)

lemma render_image_page_not_Nil: "render_image_page w p \<noteq> []"
  by (simp add: render_image_page_def)

lemma concat_render_image_Nil_iff:
  "concat (map (render_image_page w) xs) = [] \<longleftrightarrow> xs = []"
  by (cases xs) (simp_all add: render_image_page_not_Nil)

lemma images_loop_no_text:
  "all_text (images_loop v n idx files st) = [] \<longleftrightarrow>
     all_text st = [] \<and> (\<forall>p\<in>set files. image_text v p = [])"
  unfolding images_loop_all_text
  by (metis (mono_tags, lifting) append_is_Nil_conv concat_render_image_Nil_iff
      filter_empty_conv image_pages_def)

lemma images_main_written_None_iff:
  "written (images_main v) = None \<longleftrightarrow>
     \<not> (\<exists>p\<in>set (image_files v). image_text v p \<noteq> [])"
  by (auto simp: images_main_def Let_def images_loop_no_text)

lemma images_main_reports:
  "written (images_main v) = None \<Longrightarrow>
     last (shown (images_main v)) \<in> {NoFilesFound, NothingReadable}"
  by (auto simp: images_main_def Let_def split: if_splits)

text \<open>What the sample folder holds.\<close>

lemma sample_read_a:
  "book_read (book_sample L) a_png =
     \<lparr>extracted = [97], invoked = enumerated_invocations, printed = [ReadingImage]\<rparr>"
  by (simp add: book_read_def book_sample_def path_suffix_def rfind_dot_def lower_def
      lower_char_def dot_def slash_def path_join_def ext_defs sample_defs Let_def
      extract_text_with_layout_def extract_text_with_layout_try_def plain_image_def
      select_layout_def max_key_def strip_def lstrip_def rstrip_def isspace_def
      is_nl_def NL_def enumerated_invocations_def)

lemma sample_read_b:
  "book_read (book_sample L) b_png =
     \<lparr>extracted = [], invoked = [],
      printed = [ReadingImage,
                 ImageReadError [66, 111, 111, 107, 47, 98, 46, 112, 110, 103] [98, 97, 100]]\<rparr>"
  by (simp add: book_read_def book_sample_def path_suffix_def rfind_dot_def lower_def
      lower_char_def dot_def slash_def path_join_def ext_defs sample_defs Let_def
      extract_text_with_layout_def extract_text_with_layout_try_def broken_image_def)

lemma sample_read_c:
  "book_read (book_sample L) c_txt =
     \<lparr>extracted = [104, 105], invoked = [], printed = [ReadingText]\<rparr>"
  by (simp add: book_read_def book_sample_def path_suffix_def rfind_dot_def lower_def
      lower_char_def dot_def slash_def path_join_def ext_defs sample_defs Let_def
      read_text_file_def strip_def lstrip_def rstrip_def isspace_def)

lemma sample_all_files:
  "book_all_files [c_txt, b_png, a_png] = [a_png, b_png, c_txt]"
  "book_all_files [b_png] = [b_png]"
  "book_all_files [a_png, b_png] = [a_png, b_png]"
  by (simp_all add: book_all_files_def path_glob_def endswith_def ext_defs sample_defs)

lemma sample_image_files:
  "image_files (images_sample [c_txt, b_png, a_png]) = [100 # 47 # a_png, 100 # 47 # b_png]"
  "image_files (images_sample [b_png]) = [100 # 47 # b_png]"
  "image_files (images_sample [a_png]) = [100 # 47 # a_png]"
  "image_files (images_sample [a_bmp]) = []"
  by (simp_all add: image_files_def glob_glob_def glob1_def has_magic_def os_path_join_def
      images_sample_def endswith_def ext_defs sample_defs slash_def dot_def)

lemma sample_image_text:
  "image_text (images_sample L) (100 # 47 # a_png) = [97]"
  "image_text (images_sample L) (100 # 47 # b_png) = []"
  by (simp_all add: image_text_def images_sample_def sample_defs extract_text_from_image_def
      extract_text_from_image_try_def plain_image_def broken_image_def select_image_def
      max_key_def strip_def lstrip_def rstrip_def isspace_def)

text \<open>
  Claim C6. A run writes its output file exactly when some file yields non-empty
  content; a run that writes nothing ends by reporting it (the Book folder is missing,
  no files were found, or nothing could be read).
\<close>

theorem no_output_without_content:
  "(written (book_main w) = None \<longleftrightarrow>
      \<not> (book_exists w \<and> (\<exists>name\<in>set (book_all_files (book_listing w)).
                              extracted (book_read w name) \<noteq> [])))
   \<and> (written (book_main w) = None \<longrightarrow>
        last (shown (book_main w)) \<in> {BookFolderMissing, NoFilesFound, NothingReadable})
   \<and> (written (images_main v) = None \<longleftrightarrow>
        \<not> (\<exists>p\<in>set (image_files v). image_text v p \<noteq> []))
   \<and> (written (images_main v) = None \<longrightarrow>
        last (shown (images_main v)) \<in> {NoFilesFound, NothingReadable})"
  using book_main_written_None_iff[of w] book_main_reports[of w]
    images_main_written_None_iff[of v] images_main_reports[of v]
  by blast

lemma sample_fields:
  "book_listing (book_sample L) = L" "book_exists (book_sample L)"
  "book_folder (book_sample L) = [66, 111, 111, 107]" "output_mtime (book_sample L) = None"
  "dir_listing (images_sample L) = L" "current_dir (images_sample L) = [100]"
  by (simp_all add: book_sample_def images_sample_def)

lemma sample_book_nothing:
  "book_main (book_sample [b_png]) =
     \<lparr>written = None,
      shown = [FilesFound 1, Rule, Processing 1 1 b_png, ReadingImage,
               ImageReadError [66, 111, 111, 107, 47, 98, 46, 112, 110, 103] [98, 97, 100],
               NoContentInFile, NothingReadable],
      run_calls = []\<rparr>"
  by (simp add: book_main_def sample_fields sample_all_files book_step_def sample_read_b Let_def)

lemma sample_book_empty:
  "book_main (book_sample []) = \<lparr>written = None, shown = [NoFilesFound], run_calls = []\<rparr>"
  by (simp add: book_main_def sample_fields book_all_files_def path_glob_def)

lemma sample_extract_a:
  "extract_text_from_image (100 # 47 # a_png) (dir_image (images_sample L) (100 # 47 # a_png)) =
     \<lparr>extracted = [97], invoked = image_script_invocations, printed = []\<rparr>"
  by (simp add: images_sample_def sample_defs extract_text_from_image_def
      extract_text_from_image_try_def plain_image_def select_image_def max_key_def
      strip_def lstrip_def rstrip_def isspace_def image_script_invocations_def)

lemma sample_extract_b:
  "extract_text_from_image (100 # 47 # b_png) (dir_image (images_sample L) (100 # 47 # b_png)) =
     \<lparr>extracted = [], invoked = [],
      printed = [ImageReadError (100 # 47 # b_png) [98, 97, 100]]\<rparr>"
  by (simp add: images_sample_def sample_defs extract_text_from_image_def
      extract_text_from_image_try_def broken_image_def)

lemma sample_path_name:
  "path_name (100 # 47 # a_png) = a_png" "path_name (100 # 47 # b_png) = b_png"
  by (simp_all add: path_name_def slash_def sample_defs)

lemma sample_images_nothing:
  "images_main (images_sample [b_png]) =
     \<lparr>written = None,
      shown = [FilesFound 1, Rule, Processing 1 1 b_png,
               ImageReadError (100 # 47 # b_png) [98, 97, 100],
               NoContentInFile, NothingReadable],
      run_calls = []\<rparr>"
  by (simp add: images_main_def sample_fields sample_image_files images_step_def Let_def
      sample_extract_b sample_path_name)

theorem no_output_without_content_witness:
  "written (book_main (book_sample [b_png])) = None
   \<and> extracted (book_read (book_sample [b_png]) b_png) = []
   \<and> last (shown (book_main (book_sample [b_png]))) = NothingReadable
   \<and> written (images_main (images_sample [b_png])) = None
   \<and> image_text (images_sample [b_png]) (100 # 47 # b_png) = []
   \<and> last (shown (images_main (images_sample [b_png]))) = NothingReadable"
  using no_output_without_content[of "book_sample [b_png]" "images_sample [b_png]"]
  by (simp add: sample_book_nothing sample_images_nothing sample_read_b sample_image_text)

subsection \<open>Pages and their ordinals\<close>

lemma str_nat_value: "foldl (\<lambda>a d. 10 * a + (d - 48)) 0 (str_nat n) = n"
proof (induction n rule: str_nat.induct)
  case (1 n)
  show ?case
  proof (cases "n < 10")
    case True
    then show ?thesis by (simp add: str_nat.simps[of n])
  next
    case False
    with 1 show ?thesis by (simp add: str_nat.simps[of n])
  qed
qed

lemma str_nat_inject: "str_nat m = str_nat n \<Longrightarrow> m = n"
  by (metis str_nat_value)

lemma format_page_separator_ordinal:
  "format_page_separator i name = format_page_separator j name \<Longrightarrow> i = j"
  by (simp add: format_page_separator_def str_nat_inject)

lemma book_main_written:
  assumes "written (book_main w) = Some doc"
  shows "doc = book_header (length (book_all_files (book_listing w))) (output_mtime w)
           @ concat (concat (map (render_page w)
               (book_pages w (book_all_files (book_listing w)))))"
  using assms
  by (simp add: book_main_def Let_def book_loop_all_content book_pages_def split: if_splits)

lemma in_book_pages_iff:
  "(i, name) \<in> set (book_pages w files) \<longleftrightarrow>
     1 \<le> i \<and> i \<le> length files \<and> files ! (i - 1) = name \<and> extracted (book_read w name) \<noteq> []"
  by (auto simp: book_pages_def has_content_def in_set_enumerate_eq)

lemma book_page_ordinals:
  "set (map fst (book_pages w files)) =
     {i. 1 \<le> i \<and> i \<le> length files \<and> extracted (book_read w (files ! (i - 1))) \<noteq> []}"
proof (rule set_eqI)
  fix i
  have "i \<in> set (map fst (book_pages w files)) \<longleftrightarrow>
          (\<exists>name. (i, name) \<in> set (book_pages w files))"
    by force
  then show "i \<in> set (map fst (book_pages w files)) \<longleftrightarrow>
          i \<in> {i. 1 \<le> i \<and> i \<le> length files
                  \<and> extracted (book_read w (files ! (i - 1))) \<noteq> []}"
    unfolding in_book_pages_iff by auto
qed

lemma consecutive_upt:
  "consecutive xs \<Longrightarrow> xs \<noteq> [] \<Longrightarrow> xs = [hd xs..<hd xs + length xs]"
proof (induction xs rule: consecutive.induct)
  case 1
  then show ?case by simp
next
  case (2 x)
  then show ?case by simp
next
  case (3 x y ys)
  from "3.prems"(1) have y: "y = Suc x" and c: "consecutive (y # ys)"
    by auto
  have ih: "y # ys = [hd (y # ys)..<hd (y # ys) + length (y # ys)]"
    by (rule "3.IH"[OF c]) simp
  have 1: "[x..<x + length (x # y # ys)] = x # [Suc x..<x + length (x # y # ys)]"
    by (rule upt_conv_Cons) simp
  have 2: "x + length (x # y # ys) = Suc x + length (y # ys)" by simp
  have 3: "[Suc x..<Suc x + length (y # ys)] = y # ys"
    using ih y by (metis list.sel(1))
  have "[x..<x + length (x # y # ys)] = x # y # ys"
    by (simp only: 1) (simp only: 2 3)
  then show ?case by (simp only: list.sel)
qed

lemma consecutive_no_gap:
  assumes "consecutive xs" "a \<in> set xs" "c \<in> set xs" "a < b" "b < c"
  shows "b \<in> set xs"
proof -
  have ne: "xs \<noteq> []" using assms(2) by auto
  have "set xs = set [hd xs..<hd xs + length xs]"
    using consecutive_upt[OF assms(1) ne] by simp
  then have "set xs = {hd xs..<hd xs + length xs}" by simp
  with assms show ?thesis by auto
qed

lemma book_pages_gap:
  assumes "a < b" "b < c" "c < length files"
    and "extracted (book_read w (files ! a)) \<noteq> []"
    and "extracted (book_read w (files ! b)) = []"
    and "extracted (book_read w (files ! c)) \<noteq> []"
  shows "\<not> consecutive (map fst (book_pages w files))"
proof
  assume con: "consecutive (map fst (book_pages w files))"
  have a: "Suc a \<in> set (map fst (book_pages w files))"
    unfolding book_page_ordinals using assms by simp
  have c: "Suc c \<in> set (map fst (book_pages w files))"
    unfolding book_page_ordinals using assms by simp
  have "Suc b \<in> set (map fst (book_pages w files))"
    by (rule consecutive_no_gap[OF con a c]) (use assms in simp_all)
  then show False unfolding book_page_ordinals using assms by simp
qed

lemma map_snd_book_pages:
  "map snd (book_pages w files) = filter (\<lambda>name. extracted (book_read w name) \<noteq> []) files"
proof -
  have "has_content w = (\<lambda>name. extracted (book_read w name) \<noteq> []) \<circ> snd"
    by (auto simp: has_content_def fun_eq_iff)
  then have "map snd (book_pages w files) =
          filter (\<lambda>name. extracted (book_read w name) \<noteq> []) (map snd (enumerate 1 files))"
    by (simp only: book_pages_def filter_map)
  then show ?thesis by (simp only: map_snd_enumerate)
qed

lemma sample_book_pages:
  "book_pages (book_sample L) [a_png, b_png, c_txt] = [(1, a_png), (3, c_txt)]"
  "book_pages (book_sample L) [a_png, b_png] = [(1, a_png)]"
  by (simp_all add: book_pages_def has_content_def sample_read_a sample_read_b sample_read_c)

lemma sample_book_two:
  "written (book_main (book_sample [a_png, b_png])) =
     Some (book_header 2 None @ format_page_separator 1 a_png @ [97])"
  by (simp add: book_main_def sample_fields sample_all_files book_step_def sample_read_a
      sample_read_b Let_def numeral_2_eq_2)

lemma sample_book_three:
  "written (book_main (book_sample [c_txt, b_png, a_png])) =
     Some (book_header 3 None @ format_page_separator 1 a_png @ [97]
           @ format_page_separator 3 c_txt @ [104, 105])"
  by (simp add: book_main_def sample_fields sample_all_files book_step_def sample_read_a
      sample_read_b sample_read_c Let_def numeral_3_eq_3)


text \<open>
  Claim C10, as amended. In \<open>read_book_to_text.py\<close> the document is the header
  followed, for each file with non-empty content and in the order of the sorted file list,
  by a separator showing the file's 1-based position in the whole sorted list (files
  without content are counted) and by the content. The ordinals present are therefore
  not consecutive whenever a file without content lies between two files with content;
  files without content at the start or the end of the list leave no gap.
\<close>

theorem page_ordinals_are_positions:
  assumes "files = book_all_files (book_listing w)"
  shows "(written (book_main w) = Some doc \<longrightarrow>
            doc = book_header (length files) (output_mtime w)
                  @ concat (concat (map (\<lambda>(idx, filename).
                      [format_page_separator idx filename, extracted (book_read w filename)])
                      (book_pages w files))))
       \<and> (\<forall>(idx, filename)\<in>set (book_pages w files).
            1 \<le> idx \<and> idx \<le> length files \<and> files ! (idx - 1) = filename)
       \<and> set (map fst (book_pages w files)) =
            {idx. 1 \<le> idx \<and> idx \<le> length files
                  \<and> extracted (book_read w (files ! (idx - 1))) \<noteq> []}
       \<and> (a < b \<and> b < c \<and> c < length files
            \<and> extracted (book_read w (files ! a)) \<noteq> []
            \<and> extracted (book_read w (files ! b)) = []
            \<and> extracted (book_read w (files ! c)) \<noteq> [] \<longrightarrow>
          \<not> consecutive (map fst (book_pages w files)))
       \<and> (\<forall>i j. format_page_separator i name = format_page_separator j name \<longrightarrow> i = j)"
proof -
  have 1: "written (book_main w) = Some doc \<longrightarrow>
            doc = book_header (length files) (output_mtime w)
                  @ concat (concat (map (\<lambda>(idx, filename).
                      [format_page_separator idx filename, extracted (book_read w filename)])
                      (book_pages w files)))"
    using book_main_written[of w doc] unfolding assms render_page_def by blast
  have 2: "\<forall>(idx, filename)\<in>set (book_pages w files).
            1 \<le> idx \<and> idx \<le> length files \<and> files ! (idx - 1) = filename"
    using in_book_pages_iff[of _ _ w files] by blast
  have 4: "a < b \<and> b < c \<and> c < length files
            \<and> extracted (book_read w (files ! a)) \<noteq> []
            \<and> extracted (book_read w (files ! b)) = []
            \<and> extracted (book_read w (files ! c)) \<noteq> [] \<longrightarrow>
          \<not> consecutive (map fst (book_pages w files))"
    using book_pages_gap[of a b c files w] by blast
  have 5: "\<forall>i j. format_page_separator i name = format_page_separator j name \<longrightarrow> i = j"
    using format_page_separator_ordinal by blast
  from 1 2 book_page_ordinals[of w files] 4 5 show ?thesis by blast
qed

theorem page_ordinals_are_positions_witness:
  "[a_png, b_png, c_txt] = book_all_files (book_listing (book_sample [c_txt, b_png, a_png]))
   \<and> written (book_main (book_sample [c_txt, b_png, a_png])) =
       Some (book_header 3 None @ format_page_separator 1 a_png @ [97]
             @ format_page_separator 3 c_txt @ [104, 105])
   \<and> book_pages (book_sample [c_txt, b_png, a_png]) [a_png, b_png, c_txt] = [(1, a_png), (3, c_txt)]
   \<and> extracted (book_read (book_sample [c_txt, b_png, a_png]) ([a_png, b_png, c_txt] ! 0)) \<noteq> []
   \<and> extracted (book_read (book_sample [c_txt, b_png, a_png]) ([a_png, b_png, c_txt] ! 1)) = []
   \<and> extracted (book_read (book_sample [c_txt, b_png, a_png]) ([a_png, b_png, c_txt] ! 2)) \<noteq> []
   \<and> \<not> consecutive (map fst (book_pages (book_sample [c_txt, b_png, a_png]) [a_png, b_png, c_txt]))"
  using page_ordinals_are_positions[of "[a_png, b_png, c_txt]" "book_sample [c_txt, b_png, a_png]"
      "book_header 3 None @ format_page_separator 1 a_png @ [97]
             @ format_page_separator 3 c_txt @ [104, 105]" 0 1 2]
  by (simp add: sample_fields sample_all_files sample_book_three sample_book_pages
      sample_read_a sample_read_b sample_read_c)

text \<open>
  Claim C10 as stated fails: in the folder holding \<open>a.png\<close> and the undecodable
  \<open>b.png\<close>, a file yields empty content, and the ordinals of the pages present (the
  single ordinal 1) are consecutive.
\<close>

theorem trailing_empty_file_counterexample:
  "book_all_files (book_listing (book_sample [a_png, b_png])) = [a_png, b_png]
   \<and> extracted (book_read (book_sample [a_png, b_png]) b_png) = []
   \<and> written (book_main (book_sample [a_png, b_png])) =
       Some (book_header 2 None @ format_page_separator 1 a_png @ [97])
   \<and> map fst (book_pages (book_sample [a_png, b_png]) [a_png, b_png]) = [1]
   \<and> consecutive (map fst (book_pages (book_sample [a_png, b_png]) [a_png, b_png]))"
  by (simp add: sample_fields sample_all_files sample_book_two sample_book_pages sample_read_b)

subsection \<open>The order of files and pages\<close>

lemma processed_names_append:
  "processed_names (xs @ ys) = processed_names xs @ processed_names ys"
  by (induction xs rule: processed_names.induct) simp_all

lemma processed_names_book_read: "processed_names (printed (book_read w name)) = []"
  by (simp add: book_read_def Let_def extract_text_with_layout_def read_text_file_def
      split: prod.splits sum.splits read_outcome.splits)

lemma processed_names_book_file_log:
  "processed_names (book_file_log w n (idx, name)) = [name]"
  by (simp add: book_file_log_def processed_names_append processed_names_book_read)

lemma processed_names_book_logs:
  "processed_names (concat (map (book_file_log w n) (enumerate idx names))) = names"
  by (induction names arbitrary: idx)
     (simp_all add: processed_names_append processed_names_book_file_log)

lemma book_main_processed:
  "book_exists w \<Longrightarrow> processed_names (shown (book_main w)) = book_all_files (book_listing w)"
  by (simp add: book_main_def Let_def book_loop_console processed_names_append
      processed_names_book_logs)

lemma processed_names_extract_image:
  "processed_names (printed (extract_text_from_image p f)) = []"
  by (simp add: extract_text_from_image_def split: prod.splits sum.splits)

lemma processed_names_image_file_log:
  "processed_names (image_file_log v n (idx, p)) = [path_name p]"
  by (simp add: image_file_log_def processed_names_append processed_names_extract_image)

lemma processed_names_image_logs:
  "processed_names (concat (map (image_file_log v n) (enumerate idx files))) = map path_name files"
  by (induction files arbitrary: idx)
     (simp_all add: processed_names_append processed_names_image_file_log)

lemma images_main_processed:
  "processed_names (shown (images_main v)) =
     map path_name (image_files v)"
  by (simp add: images_main_def Let_def images_loop_console processed_names_append
      processed_names_image_logs)

lemma sorted_book_all_files: "sorted (book_all_files listing)"
  unfolding book_all_files_def using sorted_sort_key[of "\<lambda>x. x"] by simp

lemma sorted_image_files: "sorted (image_files v)"
  unfolding image_files_def using sorted_sort_key[of "\<lambda>x. x"] by simp

lemma sort_mset_cong:
  fixes xs ys :: "pystr list"
  assumes "mset xs = mset ys"
  shows "sort_key (\<lambda>x. x) xs = sort_key (\<lambda>x. x) ys"
  by (rule properties_for_sort) (simp_all add: assms)

lemma mset_path_glob:
  "mset listing' = mset listing \<Longrightarrow> mset (path_glob listing' e) = mset (path_glob listing e)"
  by (simp add: path_glob_def)

lemma mset_glob1:
  "mset listing' = mset listing \<Longrightarrow> mset (glob1 d listing' e) = mset (glob1 d listing e)"
  by (simp add: glob1_def)

lemma book_all_files_listing_order:
  assumes "mset listing' = mset listing"
  shows "book_all_files listing' = book_all_files listing"
  unfolding book_all_files_def
  by (rule sort_mset_cong) (simp add: mset_path_glob[OF assms])

lemma image_files_listing_order:
  assumes "mset listing' = mset (dir_listing v)"
  shows "image_files (v\<lparr>dir_listing := listing'\<rparr>) = image_files v"
  unfolding image_files_def
  by (rule sort_mset_cong) (simp add: glob_glob_def mset_glob1[OF assms])

lemma lex_append_cancel:
  fixes a b p :: "nat list"
  shows "p @ a \<le> p @ b \<longleftrightarrow> a \<le> b"
  by (induction p) simp_all

lemma path_name_join: "slash \<notin> set name \<Longrightarrow> path_name (path_join d name) = name"
proof -
  assume a: "slash \<notin> set name"
  have "takeWhile (\<lambda>c. c \<noteq> slash) (rev name @ slash # rev d) =
          rev name @ takeWhile (\<lambda>c. c \<noteq> slash) (slash # rev d)"
    by (rule takeWhile_append2) (use a in auto)
  then have "takeWhile (\<lambda>c. c \<noteq> slash) (rev name @ slash # rev d) = rev name"
    by simp
  then show ?thesis by (simp add: path_name_def path_join_def)
qed

lemma os_path_join_prefix:
  "\<exists>pre. (pre = [] \<or> last pre = slash) \<and> (\<forall>name. os_path_join d name = pre @ name)"
proof (cases "d = [] \<or> last d = slash")
  case True
  then have "\<forall>name. os_path_join d name = d @ name"
    by (auto simp: os_path_join_def)
  with True show ?thesis by blast
next
  case False
  then have "\<forall>name. os_path_join d name = (d @ [slash]) @ name"
    by (auto simp: os_path_join_def)
  moreover have "last (d @ [slash]) = slash" by simp
  ultimately show ?thesis by blast
qed

lemma path_name_prefix:
  assumes "pre = [] \<or> last pre = slash" "slash \<notin> set name"
  shows "path_name (pre @ name) = name"
proof -
  have 1: "takeWhile (\<lambda>c. c \<noteq> slash) (rev name @ rev pre) =
             rev name @ takeWhile (\<lambda>c. c \<noteq> slash) (rev pre)"
    by (rule takeWhile_append2) (use assms(2) in auto)
  have 2: "takeWhile (\<lambda>c. c \<noteq> slash) (rev pre) = []"
  proof (cases "pre = []")
    case True
    then show ?thesis by simp
  next
    case False
    with assms(1) have "hd (rev pre) = slash" by (simp add: hd_rev)
    with False show ?thesis by (cases "rev pre") auto
  qed
  show ?thesis by (simp add: path_name_def 1 2)
qed

lemma set_image_files_plain:
  assumes "\<not> has_magic (current_dir v)"
  shows "set (image_files v) =
           os_path_join (current_dir v) `
             {name \<in> set (dir_listing v). (\<exists>e\<in>set script_image_extensions. endswith name e)
                                          \<and> \<not> (name \<noteq> [] \<and> hd name = dot)}"
  using assms
  by (auto simp: image_files_def glob_glob_def glob1_def script_image_extensions_def)


lemma sorted_image_names:
  assumes "\<not> has_magic (current_dir v)" "\<forall>name\<in>set (dir_listing v). slash \<notin> set name"
  shows "sorted (map path_name (image_files v))"
proof -
  obtain pre where pre: "pre = [] \<or> last pre = slash"
    "\<forall>name. os_path_join (current_dir v) name = pre @ name"
    using os_path_join_prefix by blast
  have "sorted_wrt (\<lambda>x y. path_name x \<le> path_name y) (image_files v)"
  proof (rule sorted_wrt_mono_rel[of _ "(\<le>)"])
    fix x y
    assume "x \<in> set (image_files v)" "y \<in> set (image_files v)" "x \<le> y"
    then obtain n m where x: "x = pre @ n" "n \<in> set (dir_listing v)"
      and y: "y = pre @ m" "m \<in> set (dir_listing v)"
      unfolding set_image_files_plain[OF assms(1)] using pre(2) by auto
    from \<open>x \<le> y\<close> have "n \<le> m"
      unfolding x y by (simp add: lex_append_cancel)
    then show "path_name x \<le> path_name y"
      using assms(2) x y pre(1) by (simp add: path_name_prefix)
  next
    show "sorted_wrt (\<le>) (image_files v)" using sorted_image_files by simp
  qed
  then show ?thesis by (simp add: sorted_map)
qed

lemma sorted_book_pages:
  "sorted (map snd (book_pages w (book_all_files listing)))"
  unfolding map_snd_book_pages
  using sorted_book_all_files[of listing] sorted_filter[of "\<lambda>x. x" "book_all_files listing"]
  by simp

lemma images_main_written:
  assumes "written (images_main v) = Some doc"
  shows "doc = join [NL] (concat (map (render_image_page v)
           (image_pages v (image_files v))))"
  using assms
  by (simp add: images_main_def Let_def images_loop_all_text split: if_splits)


lemma sample_images_written:
  "written (images_main (images_sample [c_txt, b_png, a_png])) =
     Some (join [NL] [replicate 80 61, file_label @ a_png, replicate 80 61, [97], []])"
  by (simp add: images_main_def sample_fields sample_image_files images_step_def Let_def
      sample_extract_a sample_extract_b sample_path_name del: join.simps)

text \<open>
  The order of files and pages. In both scripts the list of discovered files is sorted
  lexicographically (by name in \<open>read_book_to_text.py\<close>, by path in
  \<open>extract_text_from_images.py\<close>); the files are processed in that order; and the pages
  of the document are the files with content, in that order. In
  \<open>extract_text_from_images.py\<close> the names are in order too when the path of the
  directory holds none of \<open>*\<close>, \<open>?\<close> and \<open>[\<close>, since all paths then share the directory.
\<close>

lemma files_and_pages_in_order:
  "sorted (book_all_files (book_listing w))
   \<and> (mset listing' = mset (book_listing w) \<longrightarrow>
        book_all_files listing' = book_all_files (book_listing w))
   \<and> (book_exists w \<longrightarrow>
        processed_names (shown (book_main w)) = book_all_files (book_listing w))
   \<and> (written (book_main w) = Some doc \<longrightarrow>
        doc = book_header (length (book_all_files (book_listing w))) (output_mtime w)
              @ concat (concat (map (render_page w)
                  (book_pages w (book_all_files (book_listing w))))))
   \<and> map snd (book_pages w (book_all_files (book_listing w))) =
        filter (\<lambda>name. extracted (book_read w name) \<noteq> []) (book_all_files (book_listing w))
   \<and> sorted (map snd (book_pages w (book_all_files (book_listing w))))
   \<and> sorted (image_files v)
   \<and> (mset listing'' = mset (dir_listing v) \<longrightarrow>
        image_files (v\<lparr>dir_listing := listing''\<rparr>) = image_files v)
   \<and> (\<not> has_magic (current_dir v) \<and> (\<forall>name\<in>set (dir_listing v). slash \<notin> set name) \<longrightarrow>
        sorted (map path_name (image_files v)))
   \<and> processed_names (shown (images_main v)) = map path_name (image_files v)
   \<and> (written (images_main v) = Some doc' \<longrightarrow>
        doc' = join [NL] (concat (map (render_image_page v)
                 (filter (\<lambda>p. image_text v p \<noteq> []) (image_files v)))))"
  using sorted_book_all_files[of "book_listing w"]
    book_all_files_listing_order[of listing' "book_listing w"]
    book_main_processed[of w] book_main_written[of w doc]
    map_snd_book_pages[of w "book_all_files (book_listing w)"]
    sorted_book_pages[of w "book_listing w"]
    sorted_image_files[of v]
    image_files_listing_order[of listing'' v]
    sorted_image_names[of v]
    images_main_processed[of v] images_main_written[of v doc']
  unfolding image_pages_def
  by blast

lemma star_image_files:
  "image_files star_sample = [47 # 120 # 42 # 47 # b_png, 47 # 120 # 121 # 47 # a_png]"
  by (simp add: image_files_def glob_glob_def glob1_def has_magic_def os_path_join_def
      star_sample_def endswith_def ext_defs sample_defs slash_def dot_def)

lemma star_extract:
  "extract_text_from_image p (dir_image star_sample p) =
     \<lparr>extracted = [97], invoked = image_script_invocations, printed = []\<rparr>"
  by (simp add: star_sample_def extract_text_from_image_def
      extract_text_from_image_try_def plain_image_def select_image_def max_key_def
      strip_def lstrip_def rstrip_def isspace_def image_script_invocations_def)

lemma star_path_name:
  "path_name (47 # 120 # 42 # 47 # b_png) = b_png"
  "path_name (47 # 120 # 121 # 47 # a_png) = a_png"
  by (simp_all add: path_name_def slash_def sample_defs)

lemma star_main:
  "images_main star_sample =
     \<lparr>written = Some (join [NL] [replicate 80 61, file_label @ b_png, replicate 80 61, [97], [],
                                 replicate 80 61, file_label @ a_png, replicate 80 61, [97], []]),
      shown = [FilesFound 2, Rule, Processing 1 2 b_png, ReadChars 1,
               Processing 2 2 a_png, ReadChars 1, Saved 10],
      run_calls = map (Pair (47 # 120 # 42 # 47 # b_png)) image_script_invocations
                  @ map (Pair (47 # 120 # 121 # 47 # a_png)) image_script_invocations\<rparr>"
  by (simp add: images_main_def star_image_files images_step_def Let_def star_extract
      star_path_name numeral_2_eq_2 del: join.simps)

text \<open>
  Claim C7. The pages are to appear in the lexicographic order of the names of the
  discovered files. \<open>extract_text_from_images.py\<close> puts the path of its directory into
  the glob pattern as it is and sorts the paths found. Run from the directory \<open>/x*\<close>,
  which holds \<open>b.png\<close>, beside a directory \<open>/xy\<close>, which holds \<open>a.png\<close>, it finds both
  files, processes \<open>/x*/b.png\<close> before \<open>/xy/a.png\<close>, and writes the page of \<open>b.png\<close>
  before the page of \<open>a.png\<close>: the names are out of order.
\<close>

theorem unescaped_directory_pattern_failing_input:
  "has_magic (current_dir star_sample)
   \<and> image_files star_sample = [47 # 120 # 42 # 47 # b_png, 47 # 120 # 121 # 47 # a_png]
   \<and> processed_names (shown (images_main star_sample)) = [b_png, a_png]
   \<and> written (images_main star_sample) =
       Some (join [NL] [replicate 80 61, file_label @ b_png, replicate 80 61, [97], [],
                        replicate 80 61, file_label @ a_png, replicate 80 61, [97], []])
   \<and> a_png < b_png
   \<and> \<not> sorted [b_png, a_png]"
proof -
  have "has_magic (current_dir star_sample)"
    by (simp add: star_sample_def has_magic_def)
  moreover have "a_png < b_png" "\<not> sorted [b_png, a_png]"
    by (simp_all add: sample_defs)
  ultimately show ?thesis
    by (simp add: star_image_files star_main del: join.simps)
qed

subsection \<open>The head of the document\<close>

lemma book_header_parts:
  "book_header n mtime =
     replicate 100 61 @ [NL] @ book_title @ [NL] @ replicate 100 61 @ [NL]
     @ count_label @ str_nat n @ files_word @ [NL]
     @ date_label @ (case mtime of Some t \<Rightarrow> t | None \<Rightarrow> not_available) @ [NL]
     @ replicate 100 61 @ [NL]"
  by (simp add: book_header_def)

lemma book_main_header:
  assumes "written (book_main w) = Some doc"
  shows "\<exists>stamp body.
           doc = replicate 100 61 @ [NL] @ book_title @ [NL] @ replicate 100 61 @ [NL]
                 @ count_label @ str_nat (length (book_all_files (book_listing w))) @ files_word
                 @ [NL] @ date_label @ stamp @ [NL] @ replicate 100 61 @ [NL] @ body"
proof -
  let ?stamp = "case output_mtime w of Some t \<Rightarrow> t | None \<Rightarrow> not_available"
  let ?body = "concat (concat (map (render_page w) (book_pages w (book_all_files (book_listing w)))))"
  have "doc = book_header (length (book_all_files (book_listing w))) (output_mtime w) @ ?body"
    using book_main_written[OF assms] .
  then have "doc = replicate 100 61 @ [NL] @ book_title @ [NL] @ replicate 100 61 @ [NL]
                 @ count_label @ str_nat (length (book_all_files (book_listing w))) @ files_word
                 @ [NL] @ date_label @ ?stamp @ [NL] @ replicate 100 61 @ [NL] @ ?body"
    by (simp only: book_header_parts append_assoc)
  then show ?thesis by blast
qed

lemma images_main_first_page:
  assumes "written (images_main v) = Some doc"
  shows "\<exists>name rest.
           doc = replicate 80 61 @ [NL] @ file_label @ name @ [NL] @ replicate 80 61 @ [NL] @ rest"
proof -
  let ?pages = "image_pages v (image_files v)"
  have doc: "doc = join [NL] (concat (map (render_image_page v) ?pages))"
    using images_main_written[OF assms] .
  have "?pages \<noteq> []"
    using assms images_main_written_None_iff[of v]
    by (auto simp: image_pages_def filter_empty_conv)
  then obtain p ps where ps: "?pages = p # ps" by (cases ?pages) auto
  have "doc = replicate 80 61 @ [NL] @ file_label @ path_name p @ [NL] @ replicate 80 61 @ [NL]
              @ join [NL] (image_text v p # [] # concat (map (render_image_page v) ps))"
    unfolding doc ps by (simp add: render_image_page_def)
  then show ?thesis by blast
qed

text \<open>
  Claim C9, as amended. A document written by \<open>read_book_to_text.py\<close> begins with the
  header: a rule, the title, a rule, the line with the total number of discovered files,
  a line labelled as the processing date, and a rule. A document written by
  \<open>extract_text_from_images.py\<close> has no header: it begins with the separator of its
  first page and consists of the blocks of its pages only.
\<close>

theorem document_header:
  "(written (book_main w) = Some doc \<longrightarrow>
      (\<exists>stamp body.
           doc = replicate 100 61 @ [NL] @ book_title @ [NL] @ replicate 100 61 @ [NL]
                 @ count_label @ str_nat (length (book_all_files (book_listing w))) @ files_word
                 @ [NL] @ date_label @ stamp @ [NL] @ replicate 100 61 @ [NL] @ body))
   \<and> (written (images_main v) = Some doc' \<longrightarrow>
      (\<exists>name rest.
           doc' = replicate 80 61 @ [NL] @ file_label @ name @ [NL] @ replicate 80 61 @ [NL]
                  @ rest)
      \<and> doc' = join [NL] (concat (map (render_image_page v) (image_pages v (image_files v)))))"
  using book_main_header[of w doc] images_main_first_page[of v doc']
    images_main_written[of v doc']
  by blast

theorem document_header_witness:
  "written (book_main (book_sample [c_txt, b_png, a_png])) =
       Some (book_header 3 None @ format_page_separator 1 a_png @ [97]
             @ format_page_separator 3 c_txt @ [104, 105])
   \<and> length (book_all_files (book_listing (book_sample [c_txt, b_png, a_png]))) = 3
   \<and> written (images_main (images_sample [c_txt, b_png, a_png])) =
       Some (join [NL] [replicate 80 61, file_label @ a_png, replicate 80 61, [97], []])"
  using document_header[of "book_sample [c_txt, b_png, a_png]"
      "book_header 3 None @ format_page_separator 1 a_png @ [97]
             @ format_page_separator 3 c_txt @ [104, 105]"
      "images_sample [c_txt, b_png, a_png]"
      "join [NL] [replicate 80 61, file_label @ a_png, replicate 80 61, [97], []]"]
  by (simp add: sample_book_three sample_images_written sample_fields sample_all_files
      del: join.simps)

lemma sample_images_one:
  "written (images_main (images_sample [a_png])) =
     Some (replicate 80 61 @ [NL] @ file_label @ a_png @ [NL] @ replicate 80 61 @ [NL]
           @ [97] @ [NL])"
  by (simp add: images_main_def sample_fields sample_image_files images_step_def Let_def
      sample_extract_a sample_path_name)

lemma contains_Cons_no:
  "c \<notin> set s \<Longrightarrow> \<not> contains s (c # rest)"
  by (induction s) (auto simp: take_Cons')

text \<open>
  Claim C9 as stated fails in \<open>extract_text_from_images.py\<close>: the run on a directory
  with the single image \<open>a.png\<close> writes a document that starts with the page separator
  and contains the file count \<open>1\<close> nowhere.
\<close>

theorem image_script_no_header_counterexample:
  "written (images_main (images_sample [a_png])) =
     Some (replicate 80 61 @ [NL] @ file_label @ a_png @ [NL] @ replicate 80 61 @ [NL]
           @ [97] @ [NL])
   \<and> length (image_files (images_sample [a_png])) = 1
   \<and> \<not> contains (replicate 80 61 @ [NL] @ file_label @ a_png @ [NL] @ replicate 80 61 @ [NL]
           @ [97] @ [NL]) (str_nat 1)"
proof -
  have "str_nat 1 = [49]" by (subst str_nat.simps) simp
  moreover have "49 \<notin> set (replicate 80 61 @ [NL] @ file_label @ a_png @ [NL]
           @ replicate 80 61 @ [NL] @ [97] @ [NL])"
    by (simp add: NL_def file_label_def a_png_def)
  ultimately have "\<not> contains (replicate 80 61 @ [NL] @ file_label @ a_png @ [NL]
           @ replicate 80 61 @ [NL] @ [97] @ [NL]) (str_nat 1)"
    using contains_Cons_no by metis
  then show ?thesis
    using sample_images_one by (simp add: sample_fields sample_image_files)
qed

subsection \<open>A file that cannot be read\<close>
















lemma sample_book_shown:
  "shown (book_main (book_sample [c_txt, b_png, a_png])) =
     [FilesFound 3, Rule, Processing 1 3 a_png, ReadingImage, ReadSuccess 1 1,
      Processing 2 3 b_png, ReadingImage,
      ImageReadError [66, 111, 111, 107, 47, 98, 46, 112, 110, 103] [98, 97, 100],
      NoContentInFile, Processing 3 3 c_txt, ReadingText, ReadSuccess 2 1,
      Summary 3 (length (format_page_separator 1 a_png @ [97]
                          @ format_page_separator 3 c_txt @ [104, 105]))
        (count_newlines (format_page_separator 1 a_png @ [97]
                          @ format_page_separator 3 c_txt @ [104, 105]) + 1)]"
  by (simp add: book_main_def sample_fields sample_all_files book_step_def sample_read_a
      sample_read_b sample_read_c Let_def numeral_3_eq_3 numeral_2_eq_2 count_newlines_def
      is_nl_def NL_def)

lemma sample_images_shown:
  "shown (images_main (images_sample [c_txt, b_png, a_png])) =
     [FilesFound 2, Rule, Processing 1 2 a_png, ReadChars 1, Processing 2 2 b_png,
      ImageReadError (100 # 47 # b_png) [98, 97, 100], NoContentInFile, Saved 5]"
  by (simp add: images_main_def sample_fields sample_image_files images_step_def Let_def
      sample_extract_a sample_extract_b sample_path_name numeral_2_eq_2)


subsection \<open>Discovery and dispatch by extension\<close>


















subsection \<open>The text placed in the output\<close>




end
